theory Spec2Isabelle
  imports Main
begin

chapter \<open>Attendance approval and hour accounting\<close>

text \<open>
  The community-service tracker keeps events, sign-ups and an hour counter per member in
  a PostgreSQL store behind row-level security. This theory embeds the schema, the
  policies, the trigger that maintains the counter and the client calls of the three
  dashboards, and settles what the specification says about them: which statements the
  store admits from whom, and what an admitted statement does to the counters.
\<close>

section \<open>Data model\<close>

text \<open>
  The persisted schema is the SQL migration carried in
  \<^verbatim>\<open>src/components/dashboard/MemberDashboard.tsx\<close> (lines 703-859): two enumerations and
  the tables \<^verbatim>\<open>profiles\<close>, \<^verbatim>\<open>events\<close> and \<^verbatim>\<open>attendance\<close>. A UUID is an opaque key;
  only its equality is used. The columns \<^verbatim>\<open>created_at\<close> and \<^verbatim>\<open>updated_at\<close> hold wall-clock
  time and take part in no decision, so they (and the triggers that stamp them) are left out.
  Column names carry a one-letter table prefix, since several tables share \<^verbatim>\<open>id\<close> and
  \<^verbatim>\<open>user_id\<close>.
\<close>

type_synonym uuid = nat

datatype user_role = admin | officer | member

datatype attendance_status = pending | approved | denied

record Profile =
  p_id :: uuid
  p_user_id :: uuid
  p_name :: string
  p_email :: string
  p_role :: user_role
  p_total_hours :: int

record Event =
  e_id :: uuid
  e_title :: string
  e_date_time :: nat
  e_location :: string
  e_description :: "string option"
  e_hours_value :: int
  e_created_by :: uuid

text \<open>
  \<^verbatim>\<open>hours_awarded INTEGER DEFAULT 0\<close> and \<^verbatim>\<open>verified_by UUID\<close> carry no
  \<^verbatim>\<open>NOT NULL\<close>: both columns are nullable, \<open>None\<close> is SQL's \<^verbatim>\<open>NULL\<close>.
\<close>

record Attendance =
  a_id :: uuid
  a_event_id :: uuid
  a_user_id :: uuid
  a_status :: attendance_status
  a_hours_awarded :: "int option"
  a_verified_by :: "uuid option"

text \<open>The store: the three tables and the identities of \<^verbatim>\<open>auth.users\<close> they refer to.\<close>

record database =
  auth_users :: "uuid list"
  profiles :: "Profile list"
  events :: "Event list"
  attendance :: "Attendance list"

definition empty_database :: database where
  "empty_database = \<lparr>auth_users = [], profiles = [], events = [], attendance = []\<rparr>"

text \<open>The errors a statement can raise, under PostgreSQL's condition names.\<close>

datatype error =
    insufficient_privilege
  | unique_violation
  | foreign_key_violation
  | not_null_violation
  | numeric_value_out_of_range

text \<open>A column of an \<^verbatim>\<open>INSERT\<close> or \<^verbatim>\<open>UPDATE\<close> payload is either left out or given.\<close>

datatype 'a column = omitted | given 'a

definition assign :: "'a column \<Rightarrow> 'a \<Rightarrow> 'a" where
  "assign c dflt = (case c of omitted \<Rightarrow> dflt | given v \<Rightarrow> v)"

section \<open>SQL integer expressions\<close>

text \<open>
  \<^verbatim>\<open>INTEGER\<close> is a 32-bit signed integer. \<^verbatim>\<open>+\<close> and \<^verbatim>\<open>-\<close> yield \<^verbatim>\<open>NULL\<close> when
  an operand is \<^verbatim>\<open>NULL\<close> and raise when the result leaves the range (they do not wrap).
  PostgreSQL's \<^verbatim>\<open>GREATEST\<close> ignores \<^verbatim>\<open>NULL\<close> arguments and is \<^verbatim>\<open>NULL\<close> only when all of
  them are.
\<close>

definition int4 :: "int \<Rightarrow> bool" where
  "int4 x = (- 2147483648 \<le> x \<and> x \<le> 2147483647)"

text \<open>
  A value sent for an \<^verbatim>\<open>INTEGER\<close> column is read as a 32-bit integer before the statement
  looks at any row or policy: a number outside the range raises
  \<open>numeric_value_out_of_range\<close> whoever sends it, \<^verbatim>\<open>NULL\<close> is read as it is.
\<close>

definition int4_or_null :: "int option \<Rightarrow> bool" where
  "int4_or_null x = (case x of None \<Rightarrow> True | Some h \<Rightarrow> int4 h)"

definition int4pl :: "int option \<Rightarrow> int option \<Rightarrow> error + int option" where
  "int4pl x y =
     (case x of None \<Rightarrow> Inr None
      | Some a \<Rightarrow>
          (case y of None \<Rightarrow> Inr None
           | Some b \<Rightarrow> if int4 (a + b) then Inr (Some (a + b))
                       else Inl numeric_value_out_of_range))"

definition int4mi :: "int option \<Rightarrow> int option \<Rightarrow> error + int option" where
  "int4mi x y =
     (case x of None \<Rightarrow> Inr None
      | Some a \<Rightarrow>
          (case y of None \<Rightarrow> Inr None
           | Some b \<Rightarrow> if int4 (a - b) then Inr (Some (a - b))
                       else Inl numeric_value_out_of_range))"

definition sql_greatest :: "int option \<Rightarrow> int option \<Rightarrow> int option" where
  "sql_greatest x y =
     (case x of None \<Rightarrow> y
      | Some a \<Rightarrow> (case y of None \<Rightarrow> Some a | Some b \<Rightarrow> Some (max a b)))"

section \<open>The hour-accounting trigger\<close>

text \<open>
  \<^verbatim>\<open>UPDATE public.profiles SET total_hours = <expr> WHERE user_id = <uid>\<close>: every row
  of the given user gets the value of the expression at its own \<^verbatim>\<open>total_hours\<close>; an
  expression that raises, or a \<^verbatim>\<open>NULL\<close> for the \<^verbatim>\<open>NOT NULL\<close> column, aborts the statement.
\<close>

fun profiles_set_total_hours ::
  "(int \<Rightarrow> error + int option) \<Rightarrow> uuid \<Rightarrow> Profile list \<Rightarrow> error + Profile list" where
  "profiles_set_total_hours f uid [] = Inr []"
| "profiles_set_total_hours f uid (p # ps) =
     (if p_user_id p = uid then
        (case f (p_total_hours p) of
           Inl e \<Rightarrow> Inl e
         | Inr None \<Rightarrow> Inl not_null_violation
         | Inr (Some v) \<Rightarrow>
             (case profiles_set_total_hours f uid ps of
                Inl e \<Rightarrow> Inl e
              | Inr ps' \<Rightarrow> Inr (p\<lparr>p_total_hours := v\<rparr> # ps')))
      else
        (case profiles_set_total_hours f uid ps of
           Inl e \<Rightarrow> Inl e
         | Inr ps' \<Rightarrow> Inr (p # ps')))"

text \<open>
  \<^verbatim>\<open>public.update_total_hours()\<close> (lines 814-833), fired \<^verbatim>\<open>AFTER UPDATE ON
  public.attendance FOR EACH ROW\<close> with the row before (\<open>OLD\<close>) and after (\<open>NEW\<close>) the update.
  The function is \<^verbatim>\<open>SECURITY DEFINER\<close>, so no row-level policy of \<^verbatim>\<open>profiles\<close> stands
  between it and the counter. \<^verbatim>\<open>OLD.status IS NULL\<close> never holds, the column being
  \<^verbatim>\<open>NOT NULL\<close>. Both statements address the profile of \<^verbatim>\<open>NEW.user_id\<close>.
\<close>

definition update_total_hours ::
  "Attendance \<Rightarrow> Attendance \<Rightarrow> Profile list \<Rightarrow> error + Profile list" where
  "update_total_hours OLD NEW ps =
     (case (if a_status NEW = approved \<and> a_status OLD \<noteq> approved
            then profiles_set_total_hours
                   (\<lambda>total_hours. int4pl (Some total_hours) (a_hours_awarded NEW))
                   (a_user_id NEW) ps
            else Inr ps) of
        Inl e \<Rightarrow> Inl e
      | Inr ps1 \<Rightarrow>
          if a_status OLD = approved \<and> a_status NEW \<noteq> approved
          then profiles_set_total_hours
                 (\<lambda>total_hours.
                    case int4mi (Some total_hours) (a_hours_awarded OLD) of
                      Inl e \<Rightarrow> Inl e
                    | Inr d \<Rightarrow> Inr (sql_greatest (Some 0) d))
                 (a_user_id NEW) ps1
          else Inr ps1)"

section \<open>Row-level security policies\<close>

text \<open>
  \<open>uid\<close> is \<^verbatim>\<open>auth.uid()\<close>, the identity of the session (\<open>None\<close> without one; a
  comparison with \<^verbatim>\<open>NULL\<close> is not true). Each definition is one policy, under its name.
  \<open>has_role\<close> is the subquery
  \<^verbatim>\<open>EXISTS (SELECT 1 FROM public.profiles WHERE user_id = auth.uid() AND role IN (...))\<close>;
  it reads the caller's own profile, which the \<^verbatim>\<open>SELECT\<close> policies of \<^verbatim>\<open>profiles\<close>
  show to every caller.
\<close>

definition has_role :: "database \<Rightarrow> uuid option \<Rightarrow> user_role list \<Rightarrow> bool" where
  "has_role db uid rs =
     list_ex (\<lambda>p. Some (p_user_id p) = uid \<and> p_role p \<in> set rs) (profiles db)"

definition get_current_user_role :: "database \<Rightarrow> uuid option \<Rightarrow> user_role option" where
  "get_current_user_role db uid =
     map_option p_role (find (\<lambda>p. Some (p_user_id p) = uid) (profiles db))"

definition Users_can_view_their_own_profile :: "uuid option \<Rightarrow> Profile \<Rightarrow> bool" where
  "Users_can_view_their_own_profile uid p = (uid = Some (p_user_id p))"

definition Officers_and_admins_can_view_all_profiles :: "database \<Rightarrow> uuid option \<Rightarrow> bool" where
  "Officers_and_admins_can_view_all_profiles db uid =
     (get_current_user_role db uid \<in> {Some officer, Some admin})"

definition Users_can_update_their_own_profile :: "uuid option \<Rightarrow> Profile \<Rightarrow> bool" where
  "Users_can_update_their_own_profile uid p = (uid = Some (p_user_id p))"

definition Users_can_insert_their_own_profile :: "uuid option \<Rightarrow> Profile \<Rightarrow> bool" where
  "Users_can_insert_their_own_profile uid p = (uid = Some (p_user_id p))"

definition Admins_can_insert_events :: "database \<Rightarrow> uuid option \<Rightarrow> bool" where
  "Admins_can_insert_events db uid = has_role db uid [admin]"

definition Admins_can_update_events :: "database \<Rightarrow> uuid option \<Rightarrow> bool" where
  "Admins_can_update_events db uid = has_role db uid [admin]"

definition Admins_can_delete_events :: "database \<Rightarrow> uuid option \<Rightarrow> bool" where
  "Admins_can_delete_events db uid = has_role db uid [admin]"

definition Users_can_view_their_own_attendance ::
  "database \<Rightarrow> uuid option \<Rightarrow> Attendance \<Rightarrow> bool" where
  "Users_can_view_their_own_attendance db uid a =
     (uid = Some (a_user_id a) \<or> has_role db uid [admin, officer])"

definition Users_can_sign_up_for_events :: "uuid option \<Rightarrow> Attendance \<Rightarrow> bool" where
  "Users_can_sign_up_for_events uid a = (uid = Some (a_user_id a))"

definition Officers_and_admins_can_update_attendance :: "database \<Rightarrow> uuid option \<Rightarrow> bool" where
  "Officers_and_admins_can_update_attendance db uid = has_role db uid [admin, officer]"

section \<open>Statements at the data-access boundary\<close>

text \<open>
  Every client call of the repository is one statement of the store's data API, run under
  the caller's session. An \<^verbatim>\<open>INSERT\<close> whose row fails the policy's \<^verbatim>\<open>WITH CHECK\<close> raises;
  an \<^verbatim>\<open>UPDATE\<close> or \<^verbatim>\<open>DELETE\<close> sees only the rows that pass the \<^verbatim>\<open>USING\<close> expression
  (and the \<^verbatim>\<open>SELECT\<close> policy, its \<^verbatim>\<open>WHERE\<close> clause reading the table), so a caller the
  policy turns away matches no row and gets no error: the store answers that the
  statement ran, on zero rows. A statement that raises changes nothing. A table with no policy for a command admits no row for it: clients cannot delete
  from \<^verbatim>\<open>attendance\<close> or \<^verbatim>\<open>profiles\<close>.
\<close>

subsection \<open>\<^verbatim>\<open>attendance\<close>\<close>

text \<open>
  \<open>ai_id\<close> is the primary key, from \<^verbatim>\<open>gen_random_uuid()\<close> unless the caller sends one.
  A column left out takes its default: \<^verbatim>\<open>'pending'\<close> for \<^verbatim>\<open>status\<close>, \<^verbatim>\<open>0\<close> for
  \<^verbatim>\<open>hours_awarded\<close>, \<^verbatim>\<open>NULL\<close> for \<^verbatim>\<open>verified_by\<close>.
\<close>

record Attendance_insert =
  ai_id :: uuid
  ai_event_id :: uuid
  ai_user_id :: uuid
  ai_status :: "attendance_status column"
  ai_hours_awarded :: "int option column"
  ai_verified_by :: "uuid option column"

definition attendance_new_row :: "Attendance_insert \<Rightarrow> Attendance" where
  "attendance_new_row v =
     \<lparr>a_id = ai_id v, a_event_id = ai_event_id v, a_user_id = ai_user_id v,
      a_status = assign (ai_status v) pending,
      a_hours_awarded = assign (ai_hours_awarded v) (Some 0),
      a_verified_by = assign (ai_verified_by v) None\<rparr>"

definition event_user :: "Attendance \<Rightarrow> uuid \<times> uuid" where
  "event_user a = (a_event_id a, a_user_id a)"

definition references_user :: "database \<Rightarrow> uuid option \<Rightarrow> bool" where
  "references_user db r = (case r of None \<Rightarrow> True | Some u \<Rightarrow> u \<in> set (auth_users db))"

definition INSERT_attendance ::
  "uuid option \<Rightarrow> Attendance_insert \<Rightarrow> database \<Rightarrow> error + database" where
  "INSERT_attendance uid v db =
     (let row = attendance_new_row v in
      if \<not> int4_or_null (a_hours_awarded row) then Inl numeric_value_out_of_range
      else if \<not> Users_can_sign_up_for_events uid row then Inl insufficient_privilege
      else if a_id row \<in> set (map a_id (attendance db)) then Inl unique_violation
      else if event_user row \<in> set (map event_user (attendance db)) then Inl unique_violation
      else if a_event_id row \<notin> set (map e_id (events db)) then Inl foreign_key_violation
      else if a_user_id row \<notin> set (auth_users db) then Inl foreign_key_violation
      else if \<not> references_user db (a_verified_by row) then Inl foreign_key_violation
      else Inr (db\<lparr>attendance := attendance db @ [row]\<rparr>))"

text \<open>
  The columns an update of \<^verbatim>\<open>attendance\<close> sets in this repository and its specification:
  the status, the hours and the verifier. The row's event and user are not reassigned.
\<close>

record Attendance_update =
  au_status :: "attendance_status column"
  au_hours_awarded :: "int option column"
  au_verified_by :: "uuid option column"

definition attendance_set :: "Attendance_update \<Rightarrow> Attendance \<Rightarrow> Attendance" where
  "attendance_set v a =
     a\<lparr>a_status := assign (au_status v) (a_status a),
       a_hours_awarded := assign (au_hours_awarded v) (a_hours_awarded a),
       a_verified_by := assign (au_verified_by v) (a_verified_by a)\<rparr>"

text \<open>
  The rows of an update one after the other: a row the statement addresses is replaced and
  the trigger \<^verbatim>\<open>update_user_total_hours\<close> runs on it, against the profiles as the rows
  before it left them.
\<close>

fun attendance_update_rows ::
  "(Attendance \<Rightarrow> bool) \<Rightarrow> Attendance_update \<Rightarrow> Attendance list \<Rightarrow> Profile list
     \<Rightarrow> error + Attendance list \<times> Profile list" where
  "attendance_update_rows sel v [] ps = Inr ([], ps)"
| "attendance_update_rows sel v (a # as) ps =
     (if sel a then
        (case update_total_hours a (attendance_set v a) ps of
           Inl e \<Rightarrow> Inl e
         | Inr ps1 \<Rightarrow>
             (case attendance_update_rows sel v as ps1 of
                Inl e \<Rightarrow> Inl e
              | Inr (as', ps2) \<Rightarrow> Inr (attendance_set v a # as', ps2)))
      else
        (case attendance_update_rows sel v as ps of
           Inl e \<Rightarrow> Inl e
         | Inr (as', ps2) \<Rightarrow> Inr (a # as', ps2)))"

text \<open>
  \<^verbatim>\<open>supabase.from('attendance').update(v).eq('id', aid)\<close>. The foreign key of a given
  verifier is checked on the rows the statement reaches. The policy has no \<^verbatim>\<open>WITH CHECK\<close>
  of its own, so its \<^verbatim>\<open>USING\<close> expression is also the check of the new row; it does not
  look at the row and holds of the new row as it did of the old.
\<close>

definition UPDATE_attendance ::
  "uuid option \<Rightarrow> uuid \<Rightarrow> Attendance_update \<Rightarrow> database \<Rightarrow> error + database" where
  "UPDATE_attendance uid aid v db =
     (let sel = (\<lambda>a. a_id a = aid
                    \<and> Users_can_view_their_own_attendance db uid a
                    \<and> Officers_and_admins_can_update_attendance db uid) in
      if \<not> int4_or_null (assign (au_hours_awarded v) None)
      then Inl numeric_value_out_of_range
      else if list_ex sel (attendance db)
         \<and> \<not> references_user db (assign (au_verified_by v) None)
      then Inl foreign_key_violation
      else
        (case attendance_update_rows sel v (attendance db) (profiles db) of
           Inl e \<Rightarrow> Inl e
         | Inr (as, ps) \<Rightarrow> Inr (db\<lparr>attendance := as, profiles := ps\<rparr>)))"

subsection \<open>\<^verbatim>\<open>events\<close>\<close>

definition INSERT_events :: "uuid option \<Rightarrow> Event \<Rightarrow> database \<Rightarrow> error + database" where
  "INSERT_events uid row db =
     (if \<not> int4 (e_hours_value row) then Inl numeric_value_out_of_range
      else if \<not> Admins_can_insert_events db uid then Inl insufficient_privilege
      else if e_id row \<in> set (map e_id (events db)) then Inl unique_violation
      else if e_created_by row \<notin> set (auth_users db) then Inl foreign_key_violation
      else Inr (db\<lparr>events := events db @ [row]\<rparr>))"

record Event_update =
  eu_title :: "string column"
  eu_date_time :: "nat column"
  eu_location :: "string column"
  eu_description :: "string option column"
  eu_hours_value :: "int column"

definition event_set :: "Event_update \<Rightarrow> Event \<Rightarrow> Event" where
  "event_set v e =
     e\<lparr>e_title := assign (eu_title v) (e_title e),
       e_date_time := assign (eu_date_time v) (e_date_time e),
       e_location := assign (eu_location v) (e_location e),
       e_description := assign (eu_description v) (e_description e),
       e_hours_value := assign (eu_hours_value v) (e_hours_value e)\<rparr>"

text \<open>\<^verbatim>\<open>supabase.from('events').update(v).eq('id', eid)\<close>.\<close>

definition UPDATE_events ::
  "uuid option \<Rightarrow> uuid \<Rightarrow> Event_update \<Rightarrow> database \<Rightarrow> error + database" where
  "UPDATE_events uid eid v db =
     (if \<not> int4 (assign (eu_hours_value v) 0) then Inl numeric_value_out_of_range
      else Inr (db\<lparr>events :=
                  map (\<lambda>e. if e_id e = eid \<and> Admins_can_update_events db uid
                           then event_set v e else e)
                    (events db)\<rparr>))"

text \<open>
  \<^verbatim>\<open>supabase.from('events').delete().eq('id', eid)\<close>. The rows of \<^verbatim>\<open>attendance\<close> that
  refer to a deleted event go with it (\<^verbatim>\<open>ON DELETE CASCADE\<close>, line 737); the cascade is the
  store's own and passes no policy. The only trigger of \<^verbatim>\<open>attendance\<close> that touches
  \<^verbatim>\<open>profiles\<close> is declared \<^verbatim>\<open>AFTER UPDATE\<close> (lines 836-838) and does not run on a delete.
\<close>

definition DELETE_events :: "uuid option \<Rightarrow> uuid \<Rightarrow> database \<Rightarrow> database" where
  "DELETE_events uid eid db =
     (let gone = filter (\<lambda>e. e_id e = eid \<and> Admins_can_delete_events db uid) (events db) in
      db\<lparr>events := filter (\<lambda>e. \<not> (e_id e = eid \<and> Admins_can_delete_events db uid)) (events db),
         attendance := filter (\<lambda>a. a_event_id a \<notin> set (map e_id gone)) (attendance db)\<rparr>)"

subsection \<open>\<^verbatim>\<open>profiles\<close>\<close>

record Profile_update =
  pu_name :: "string column"
  pu_email :: "string column"
  pu_role :: "user_role column"
  pu_total_hours :: "int column"

definition profile_set :: "Profile_update \<Rightarrow> Profile \<Rightarrow> Profile" where
  "profile_set v p =
     p\<lparr>p_name := assign (pu_name v) (p_name p),
       p_email := assign (pu_email v) (p_email p),
       p_role := assign (pu_role v) (p_role p),
       p_total_hours := assign (pu_total_hours v) (p_total_hours p)\<rparr>"

text \<open>
  \<^verbatim>\<open>supabase.from('profiles').update(v).eq('user_id', target)\<close>. The one \<^verbatim>\<open>UPDATE\<close>
  policy of the table is \<^verbatim>\<open>"Users can update their own profile"\<close>; it names no column.
\<close>

definition UPDATE_profiles ::
  "uuid option \<Rightarrow> uuid \<Rightarrow> Profile_update \<Rightarrow> database \<Rightarrow> error + database" where
  "UPDATE_profiles uid target v db =
     (if \<not> int4 (assign (pu_total_hours v) 0) then Inl numeric_value_out_of_range
      else Inr (db\<lparr>profiles :=
                  map (\<lambda>p. if p_user_id p = target
                              \<and> (Users_can_view_their_own_profile uid p
                                 \<or> Officers_and_admins_can_view_all_profiles db uid)
                              \<and> Users_can_update_their_own_profile uid p
                           then profile_set v p else p)
                    (profiles db)\<rparr>))"

definition INSERT_profiles :: "uuid option \<Rightarrow> Profile \<Rightarrow> database \<Rightarrow> error + database" where
  "INSERT_profiles uid row db =
     (if \<not> int4 (p_total_hours row) then Inl numeric_value_out_of_range
      else if \<not> Users_can_insert_their_own_profile uid row then Inl insufficient_privilege
      else if p_id row \<in> set (map p_id (profiles db)) then Inl unique_violation
      else if p_user_id row \<in> set (map p_user_id (profiles db)) then Inl unique_violation
      else if p_user_id row \<notin> set (auth_users db) then Inl foreign_key_violation
      else Inr (db\<lparr>profiles := profiles db @ [row]\<rparr>))"

text \<open>
  \<^verbatim>\<open>public.handle_new_user()\<close> (lines 794-806), fired after a row enters
  \<^verbatim>\<open>auth.users\<close>: the new identity gets a profile with role \<^verbatim>\<open>'member'\<close> and the
  column default \<^verbatim>\<open>0\<close> for \<^verbatim>\<open>total_hours\<close>. \<open>pid\<close> is the profile's generated key and
  \<open>name\<close> the \<^verbatim>\<open>name\<close> entry of the sign-up metadata, if any.
\<close>

definition handle_new_user ::
  "uuid \<Rightarrow> uuid \<Rightarrow> string option \<Rightarrow> string \<Rightarrow> database \<Rightarrow> error + database" where
  "handle_new_user pid NEW_id name email db =
     (if pid \<in> set (map p_id (profiles db)) then Inl unique_violation
      else if NEW_id \<in> set (map p_user_id (profiles db)) then Inl unique_violation
      else Inr (db\<lparr>profiles := profiles db @
                  [\<lparr>p_id = pid, p_user_id = NEW_id,
                    p_name = (case name of None \<Rightarrow> [] | Some n \<Rightarrow> n),
                    p_email = email, p_role = member, p_total_hours = 0\<rparr>]\<rparr>))"

definition INSERT_auth_users ::
  "uuid \<Rightarrow> uuid \<Rightarrow> string option \<Rightarrow> string \<Rightarrow> database \<Rightarrow> error + database" where
  "INSERT_auth_users pid NEW_id name email db =
     (if NEW_id \<in> set (auth_users db) then Inl unique_violation
      else handle_new_user pid NEW_id name email (db\<lparr>auth_users := auth_users db @ [NEW_id]\<rparr>))"

section \<open>The dashboards\<close>

text \<open>
  The client functions of the three dashboards. \<open>user\<close> is the session's user of
  \<^verbatim>\<open>useAuth()\<close>, \<^verbatim>\<open>null\<close> when nobody is signed in; the store sees the same identity as
  \<^verbatim>\<open>auth.uid()\<close>. A function returns the toast it shows, if any, and the store it leaves.
\<close>

datatype toast = toast_success | toast_destructive error

text \<open>
  \<^verbatim>\<open>signUpForEvent\<close> (\<^verbatim>\<open>MemberDashboard.tsx\<close>, lines 69-96). The insert names the event,
  the user and the hours; the status is left to the column default. \<open>new_id\<close> is the key
  the store generates for the row. \<open>hoursValue\<close> is the \<^verbatim>\<open>hours_value\<close> of an event row,
  an \<^verbatim>\<open>INTEGER\<close>.
\<close>

definition signUpForEvent ::
  "uuid option \<Rightarrow> uuid \<Rightarrow> uuid \<Rightarrow> int \<Rightarrow> database \<Rightarrow> toast option \<times> database" where
  "signUpForEvent user new_id eventId hoursValue db =
     (case user of
        None \<Rightarrow> (None, db)
      | Some u \<Rightarrow>
          (case INSERT_attendance (Some u)
                  \<lparr>ai_id = new_id, ai_event_id = eventId, ai_user_id = u,
                   ai_status = omitted, ai_hours_awarded = given (Some hoursValue),
                   ai_verified_by = omitted\<rparr> db of
             Inl e \<Rightarrow> (Some (toast_destructive e), db)
           | Inr db' \<Rightarrow> (Some toast_success, db')))"

text \<open>
  What the member's dashboard holds between two fetches (\<^verbatim>\<open>fetchData\<close>, lines 39-67): the
  upcoming events by date and the member's own attendance rows, as the store had them at
  the time \<open>now\<close> of the fetch. The attendance rows come newest first
  (\<^verbatim>\<open>created_at\<close> descending): the store appends a row when it is created, so newest
  first is the reverse of the store's order.
\<close>

record MemberDashboard =
  md_events :: "Event list"
  md_myAttendance :: "Attendance list"

definition fetchData :: "uuid option \<Rightarrow> nat \<Rightarrow> database \<Rightarrow> MemberDashboard \<Rightarrow> MemberDashboard" where
  "fetchData user now db st =
     (case user of
        None \<Rightarrow> st
      | Some u \<Rightarrow>
          \<lparr>md_events = sort_key e_date_time (filter (\<lambda>e. now \<le> e_date_time e) (events db)),
           md_myAttendance =
             rev (filter (\<lambda>a. a_user_id a = u \<and> Users_can_view_their_own_attendance db user a)
                    (attendance db))\<rparr>)"

definition isSignedUp :: "MemberDashboard \<Rightarrow> uuid \<Rightarrow> bool" where
  "isSignedUp st eventId = list_ex (\<lambda>a. a_event_id a = eventId) (md_myAttendance st)"

text \<open>
  The Sign Up button of an event card (lines 175-181): disabled once the member is signed
  up, otherwise \<^verbatim>\<open>signUpForEvent(event.id, event.hours_value)\<close> on the card's event, an
  element of \<open>md_events\<close>.
\<close>

definition Sign_Up_onClick ::
  "MemberDashboard \<Rightarrow> uuid option \<Rightarrow> uuid \<Rightarrow> Event \<Rightarrow> database \<Rightarrow> toast option \<times> database" where
  "Sign_Up_onClick st user new_id event db =
     (if isSignedUp st (e_id event) then (None, db)
      else signUpForEvent user new_id (e_id event) (e_hours_value event) db)"

text \<open>
  \<^verbatim>\<open>updateAttendanceStatus\<close> (\<^verbatim>\<open>OfficerDashboard.tsx\<close>, lines 85-112). Its buttons pass
  \<^verbatim>\<open>'approved'\<close> or \<^verbatim>\<open>'denied'\<close>.
\<close>

definition updateAttendanceStatus ::
  "uuid option \<Rightarrow> uuid \<Rightarrow> attendance_status \<Rightarrow> database \<Rightarrow> toast option \<times> database" where
  "updateAttendanceStatus user attendanceId status db =
     (case user of
        None \<Rightarrow> (None, db)
      | Some u \<Rightarrow>
          (case UPDATE_attendance (Some u) attendanceId
                  \<lparr>au_status = given status, au_hours_awarded = omitted,
                   au_verified_by = given (Some u)\<rparr> db of
             Inl e \<Rightarrow> (Some (toast_destructive e), db)
           | Inr db' \<Rightarrow> (Some toast_success, db')))"


definition updateUserRole ::
  "uuid option \<Rightarrow> uuid \<Rightarrow> user_role \<Rightarrow> database \<Rightarrow> toast option \<times> database" where
  "updateUserRole user userId newRole db =
     (case UPDATE_profiles user userId
             \<lparr>pu_name = omitted, pu_email = omitted, pu_role = given newRole,
              pu_total_hours = omitted\<rparr> db of
        Inl e \<Rightarrow> (Some (toast_destructive e), db)
      | Inr db' \<Rightarrow> (Some toast_success, db'))"

section \<open>Histories of the store\<close>

text \<open>
  A history is a sequence of statements, each run against the store the one before it
  left; a statement that raises leaves the store as it was.
\<close>

datatype request =
    Insert_auth_users uuid uuid "string option" string
  | Insert_profiles "uuid option" Profile
  | Update_profiles "uuid option" uuid Profile_update
  | Insert_events "uuid option" Event
  | Update_events "uuid option" uuid Event_update
  | Delete_events "uuid option" uuid
  | Insert_attendance "uuid option" Attendance_insert
  | Update_attendance "uuid option" uuid Attendance_update

definition or_unchanged :: "database \<Rightarrow> error + database \<Rightarrow> database" where
  "or_unchanged db r = (case r of Inl e \<Rightarrow> db | Inr db' \<Rightarrow> db')"

fun perform :: "request \<Rightarrow> database \<Rightarrow> database" where
  "perform (Insert_auth_users pid uid name email) db =
     or_unchanged db (INSERT_auth_users pid uid name email db)"
| "perform (Insert_profiles uid row) db = or_unchanged db (INSERT_profiles uid row db)"
| "perform (Update_profiles uid target v) db = or_unchanged db (UPDATE_profiles uid target v db)"
| "perform (Insert_events uid row) db = or_unchanged db (INSERT_events uid row db)"
| "perform (Update_events uid eid v) db = or_unchanged db (UPDATE_events uid eid v db)"
| "perform (Delete_events uid eid) db = DELETE_events uid eid db"
| "perform (Insert_attendance uid v) db = or_unchanged db (INSERT_attendance uid v db)"
| "perform (Update_attendance uid aid v) db = or_unchanged db (UPDATE_attendance uid aid v db)"

fun run :: "request list \<Rightarrow> database \<Rightarrow> database" where
  "run [] db = db"
| "run (r # rs) db = run rs (perform r db)"

text \<open>The keys the schema declares: primary keys and the two \<^verbatim>\<open>UNIQUE\<close> constraints.\<close>

definition keys_unique :: "database \<Rightarrow> bool" where
  "keys_unique db =
     (distinct (map p_id (profiles db)) \<and> distinct (map p_user_id (profiles db))
      \<and> distinct (map e_id (events db))
      \<and> distinct (map a_id (attendance db)) \<and> distinct (map event_user (attendance db)))"

text \<open>The total-hours counter of a user: the counter of the user's profile row.\<close>

definition total_hours_of :: "database \<Rightarrow> uuid \<Rightarrow> int option" where
  "total_hours_of db u = map_option p_total_hours (find (\<lambda>p. p_user_id p = u) (profiles db))"

section \<open>The accounting rule as the specification words it\<close>

text \<open>
  The specification's transition rule, written from its sentences and not from the
  trigger: the counter after a status change from \<open>previous\<close> to \<open>new\<close>, for the hours of
  the record after (\<open>hours_new\<close>) and before (\<open>hours_old\<close>) the update.
\<close>

definition spec_total_hours ::
  "attendance_status \<Rightarrow> attendance_status \<Rightarrow> int \<Rightarrow> int \<Rightarrow> int \<Rightarrow> int" where
  "spec_total_hours previous new hours_new hours_old counter =
     (if new = approved \<and> previous \<noteq> approved then counter + hours_new
      else if previous = approved \<and> new \<noteq> approved then max 0 (counter - hours_old)
      else counter)"

section \<open>A small organisation\<close>

text \<open>
  A store to run the code on: a member (user 1), an officer (user 2) and an admin
  (user 3), nobody with hours yet, and two events of three and two hours.
\<close>

definition example_store :: database where
  "example_store =
     \<lparr>auth_users = [1, 2, 3],
      profiles =
        [\<lparr>p_id = 11, p_user_id = 1, p_name = ''Mia'', p_email = ''mia@ices'',
          p_role = member, p_total_hours = 0\<rparr>,
         \<lparr>p_id = 12, p_user_id = 2, p_name = ''Omar'', p_email = ''omar@ices'',
          p_role = officer, p_total_hours = 0\<rparr>,
         \<lparr>p_id = 13, p_user_id = 3, p_name = ''Ada'', p_email = ''ada@ices'',
          p_role = admin, p_total_hours = 0\<rparr>],
      events =
        [\<lparr>e_id = 7, e_title = ''Beach cleanup'', e_date_time = 100, e_location = ''Shore'',
          e_description = None, e_hours_value = 3, e_created_by = 3\<rparr>,
         \<lparr>e_id = 8, e_title = ''Food drive'', e_date_time = 200, e_location = ''Hall'',
          e_description = Some ''Bring boxes'', e_hours_value = 2, e_created_by = 3\<rparr>],
      attendance = []\<rparr>"

text \<open>The payload of a status change as \<^verbatim>\<open>updateAttendanceStatus\<close> sends it.\<close>

definition status_change :: "attendance_status \<Rightarrow> uuid \<Rightarrow> Attendance_update" where
  "status_change status verifier =
     \<lparr>au_status = given status, au_hours_awarded = omitted, au_verified_by = given (Some verifier)\<rparr>"

text \<open>
  The member signs up for the beach cleanup with its three hours; then the officer
  approves the record.
\<close>

definition signed_up_store :: database where
  "signed_up_store = snd (signUpForEvent (Some 1) 20 7 3 example_store)"

definition credited_store :: database where
  "credited_store = snd (updateAttendanceStatus (Some 2) 20 approved signed_up_store)"

text \<open>The hour value the store holds for an event.\<close>

definition hours_value_of :: "database \<Rightarrow> uuid \<Rightarrow> int option" where
  "hours_value_of db eid = map_option e_hours_value (find (\<lambda>e. e_id e = eid) (events db))"

text \<open>
  The member's dashboard as fetched from the example store at time 50, and the store
  after the admin has since raised the beach cleanup from three hours to five.
\<close>

definition member_dashboard :: MemberDashboard where
  "member_dashboard =
     fetchData (Some 1) 50 example_store \<lparr>md_events = [], md_myAttendance = []\<rparr>"

definition revalued_store :: database where
  "revalued_store =
     perform
       (Update_events (Some 3) 7
          \<lparr>eu_title = omitted, eu_date_time = omitted, eu_location = omitted,
           eu_description = omitted, eu_hours_value = given 5\<rparr>) example_store"

section \<open>The caller's role\<close>

lemma has_role_list:
  "distinct (map p_user_id ps) \<Longrightarrow>
   list_ex (\<lambda>p. Some (p_user_id p) = uid \<and> p_role p \<in> set rs) ps =
   (\<exists>r \<in> set rs. map_option p_role (find (\<lambda>p. Some (p_user_id p) = uid) ps) = Some r)"
proof (induction ps)
  case Nil
  then show ?case by simp
next
  case (Cons a ps)
  show ?case
  proof (cases "Some (p_user_id a) = uid")
    case True
    with Cons.prems have "\<not> list_ex (\<lambda>p. Some (p_user_id p) = uid \<and> p_role p \<in> set rs) ps"
      by (auto simp: list_ex_iff image_iff)
    with True show ?thesis by auto
  next
    case False
    with Cons show ?thesis by simp
  qed
qed

lemma has_role_iff:
  "distinct (map p_user_id (profiles db)) \<Longrightarrow>
   has_role db uid rs = (\<exists>r \<in> set rs. get_current_user_role db uid = Some r)"
  unfolding has_role_def get_current_user_role_def by (rule has_role_list)

section \<open>The trigger\<close>

lemma set_total_hours_keys:
  assumes "profiles_set_total_hours f uid ps = Inr ps'"
  shows "map p_user_id ps' = map p_user_id ps" and "map p_id ps' = map p_id ps"
    and "map p_role ps' = map p_role ps"
  using assms
  by (induction ps arbitrary: ps') (auto split: if_splits sum.splits option.splits)

lemma update_total_hours_keys:
  assumes "update_total_hours OLD NEW ps = Inr ps'"
  shows "map p_user_id ps' = map p_user_id ps" and "map p_id ps' = map p_id ps"
    and "map p_role ps' = map p_role ps"
  using assms
  by (auto simp: update_total_hours_def split: if_splits sum.splits dest: set_total_hours_keys)

lemma update_total_hours_idle:
  "(a_status NEW = approved) = (a_status OLD = approved) \<Longrightarrow> update_total_hours OLD NEW ps = Inr ps"
  by (auto simp: update_total_hours_def)

section \<open>Updates of attendance rows\<close>

lemma attendance_set_keys [simp]:
  "a_id (attendance_set v a) = a_id a"
  "a_event_id (attendance_set v a) = a_event_id a"
  "a_user_id (attendance_set v a) = a_user_id a"
  "event_user (attendance_set v a) = event_user a"
  by (simp_all add: attendance_set_def event_user_def)

lemma update_rows_no_match:
  "\<not> list_ex sel as \<Longrightarrow> attendance_update_rows sel v as ps = Inr (as, ps)"
  by (induction as) auto

lemma update_rows_idle:
  assumes "\<forall>a \<in> set as. sel a \<longrightarrow> (a_status (attendance_set v a) = approved) = (a_status a = approved)"
  shows "attendance_update_rows sel v as ps =
         Inr (map (\<lambda>a. if sel a then attendance_set v a else a) as, ps)"
  using assms by (induction as) (auto simp: update_total_hours_idle)

lemma update_rows_keys:
  assumes "attendance_update_rows sel v as ps = Inr (as', ps')"
  shows "as' = map (\<lambda>a. if sel a then attendance_set v a else a) as"
    and "map p_user_id ps' = map p_user_id ps" and "map p_id ps' = map p_id ps"
    and "map p_role ps' = map p_role ps"
  using assms
  by (induction as arbitrary: as' ps ps')
     (auto split: if_splits sum.splits dest: update_total_hours_keys)

lemma update_rows_one:
  assumes "distinct (map a_id as)" and "r \<in> set as"
  shows "attendance_update_rows (\<lambda>a. a_id a = a_id r) v as ps =
         (case update_total_hours r (attendance_set v r) ps of
            Inl e \<Rightarrow> Inl e
          | Inr ps' \<Rightarrow> Inr (map (\<lambda>a. if a_id a = a_id r then attendance_set v a else a) as, ps'))"
  using assms
proof (induction as)
  case Nil
  then show ?case by simp
next
  case (Cons a as)
  show ?case
  proof (cases "a = r")
    case True
    with Cons.prems have "\<not> list_ex (\<lambda>a. a_id a = a_id r) as"
      by (auto simp: list_ex_iff image_iff)
    then have rest: "\<And>qs. attendance_update_rows (\<lambda>a. a_id a = a_id r) v as qs = Inr (as, qs)"
      by (rule update_rows_no_match)
    from Cons.prems True have "map (\<lambda>a. if a_id a = a_id r then attendance_set v a else a) as = as"
      by (intro map_idI) (auto simp: image_iff)
    with True rest show ?thesis
      by (simp split: sum.splits)
  next
    case False
    with Cons.prems have r: "r \<in> set as" and ne: "a_id a \<noteq> a_id r"
      by (auto simp: image_iff)
    with Cons have "attendance_update_rows (\<lambda>a. a_id a = a_id r) v as ps =
         (case update_total_hours r (attendance_set v r) ps of
            Inl e \<Rightarrow> Inl e
          | Inr ps' \<Rightarrow> Inr (map (\<lambda>a. if a_id a = a_id r then attendance_set v a else a) as, ps'))"
      by simp
    with ne show ?thesis
      by (simp split: sum.splits)
  qed
qed


lemma UPDATE_attendance_turned_away:
  assumes "\<not> has_role db uid [admin, officer]"
  shows "UPDATE_attendance uid aid v db =
         (if int4_or_null (assign (au_hours_awarded v) None) then Inr db
          else Inl numeric_value_out_of_range)"
proof -
  let ?sel = "\<lambda>a. a_id a = aid \<and> Users_can_view_their_own_attendance db uid a
                \<and> Officers_and_admins_can_update_attendance db uid"
  from assms have none: "\<not> list_ex ?sel (attendance db)"
    by (simp add: Officers_and_admins_can_update_attendance_def list_ex_iff)
  then have "attendance_update_rows ?sel v (attendance db) (profiles db)
             = Inr (attendance db, profiles db)"
    by (rule update_rows_no_match)
  with none show ?thesis
    by (simp add: UPDATE_attendance_def)
qed

lemma UPDATE_attendance_admitted:
  assumes "has_role db uid [admin, officer]"
  shows "UPDATE_attendance uid aid v db =
         (if \<not> int4_or_null (assign (au_hours_awarded v) None)
          then Inl numeric_value_out_of_range
          else if list_ex (\<lambda>a. a_id a = aid) (attendance db)
             \<and> \<not> references_user db (assign (au_verified_by v) None)
          then Inl foreign_key_violation
          else
            (case attendance_update_rows (\<lambda>a. a_id a = aid) v (attendance db) (profiles db) of
               Inl e \<Rightarrow> Inl e
             | Inr (as, ps) \<Rightarrow> Inr (db\<lparr>attendance := as, profiles := ps\<rparr>)))"
proof -
  from assms have "(\<lambda>a. a_id a = aid \<and> Users_can_view_their_own_attendance db uid a
                \<and> Officers_and_admins_can_update_attendance db uid) = (\<lambda>a. a_id a = aid)"
    by (simp add: Officers_and_admins_can_update_attendance_def
        Users_can_view_their_own_attendance_def)
  then show ?thesis
    by (simp add: UPDATE_attendance_def Let_def)
qed

lemma UPDATE_attendance_keys:
  assumes "UPDATE_attendance uid aid v db = Inr db'"
  shows "map a_id (attendance db') = map a_id (attendance db)"
    and "map event_user (attendance db') = map event_user (attendance db)"
    and "map p_user_id (profiles db') = map p_user_id (profiles db)"
    and "map p_id (profiles db') = map p_id (profiles db)"
    and "map p_role (profiles db') = map p_role (profiles db)"
    and "events db' = events db" and "auth_users db' = auth_users db"
proof -
  from assms obtain sel as ps where
    rows: "attendance_update_rows sel v (attendance db) (profiles db) = Inr (as, ps)"
    and db': "db' = db\<lparr>attendance := as, profiles := ps\<rparr>"
    by (auto simp: UPDATE_attendance_def Let_def split: if_splits sum.splits)
  note k = update_rows_keys [OF rows]
  from k(1) have "map a_id as = map a_id (attendance db)"
    and "map event_user as = map event_user (attendance db)"
    by (simp_all add: comp_def if_distrib [of a_id] if_distrib [of event_user])
  with k db' show "map a_id (attendance db') = map a_id (attendance db)"
    and "map event_user (attendance db') = map event_user (attendance db)"
    and "map p_user_id (profiles db') = map p_user_id (profiles db)"
    and "map p_id (profiles db') = map p_id (profiles db)"
    and "map p_role (profiles db') = map p_role (profiles db)"
    and "events db' = events db" and "auth_users db' = auth_users db"
    by simp_all
qed

section \<open>Keys along a history\<close>

lemma keys_unique_perform: "keys_unique db \<Longrightarrow> keys_unique (perform r db)"
proof (cases r)
  case (Insert_auth_users pid uid name email)
  then show "keys_unique db \<Longrightarrow> keys_unique (perform r db)"
    by (auto simp: keys_unique_def or_unchanged_def INSERT_auth_users_def handle_new_user_def)
next
  case (Insert_profiles uid row)
  then show "keys_unique db \<Longrightarrow> keys_unique (perform r db)"
    by (auto simp: keys_unique_def or_unchanged_def INSERT_profiles_def)
next
  case (Update_profiles uid target v)
  have "map p_id (profiles db') = map p_id (profiles db)
      \<and> map p_user_id (profiles db') = map p_user_id (profiles db)
      \<and> events db' = events db \<and> attendance db' = attendance db"
    if "UPDATE_profiles uid target v db = Inr db'" for db'
    using that
    by (auto simp: UPDATE_profiles_def profile_set_def comp_def
        if_distrib [of p_id] if_distrib [of p_user_id] split: if_splits)
  with Update_profiles show "keys_unique db \<Longrightarrow> keys_unique (perform r db)"
    by (cases "UPDATE_profiles uid target v db")
       (simp_all add: keys_unique_def or_unchanged_def)
next
  case (Insert_events uid row)
  then show "keys_unique db \<Longrightarrow> keys_unique (perform r db)"
    by (auto simp: keys_unique_def or_unchanged_def INSERT_events_def)
next
  case (Update_events uid eid v)
  have "map e_id (events db') = map e_id (events db)
      \<and> profiles db' = profiles db \<and> attendance db' = attendance db"
    if "UPDATE_events uid eid v db = Inr db'" for db'
    using that
    by (auto simp: UPDATE_events_def event_set_def comp_def if_distrib [of e_id]
        split: if_splits)
  with Update_events show "keys_unique db \<Longrightarrow> keys_unique (perform r db)"
    by (cases "UPDATE_events uid eid v db")
       (simp_all add: keys_unique_def or_unchanged_def)
next
  case (Delete_events uid eid)
  then show "keys_unique db \<Longrightarrow> keys_unique (perform r db)"
    by (simp add: keys_unique_def DELETE_events_def Let_def distinct_map_filter)
next
  case (Insert_attendance uid v)
  then show "keys_unique db \<Longrightarrow> keys_unique (perform r db)"
    by (auto simp: keys_unique_def or_unchanged_def INSERT_attendance_def Let_def)
next
  case (Update_attendance uid aid v)
  then show "keys_unique db \<Longrightarrow> keys_unique (perform r db)"
    by (cases "UPDATE_attendance uid aid v db")
       (simp_all add: keys_unique_def or_unchanged_def UPDATE_attendance_keys)
qed

lemma keys_unique_run: "keys_unique db \<Longrightarrow> keys_unique (run rs db)"
  by (induction rs arbitrary: db) (simp_all add: keys_unique_perform)

lemma keys_unique_empty: "keys_unique empty_database"
  by (simp add: keys_unique_def empty_database_def)

section \<open>The example stores, evaluated\<close>

lemma signed_up_store_eq:
  "signed_up_store = example_store
     \<lparr>attendance :=
        [\<lparr>a_id = 20, a_event_id = 7, a_user_id = 1, a_status = pending,
          a_hours_awarded = Some 3, a_verified_by = None\<rparr>]\<rparr>"
  by code_simp

lemma credited_store_eq:
  "credited_store = example_store
     \<lparr>profiles :=
        [\<lparr>p_id = 11, p_user_id = 1, p_name = ''Mia'', p_email = ''mia@ices'',
          p_role = member, p_total_hours = 3\<rparr>,
         \<lparr>p_id = 12, p_user_id = 2, p_name = ''Omar'', p_email = ''omar@ices'',
          p_role = officer, p_total_hours = 0\<rparr>,
         \<lparr>p_id = 13, p_user_id = 3, p_name = ''Ada'', p_email = ''ada@ices'',
          p_role = admin, p_total_hours = 0\<rparr>],
      attendance :=
        [\<lparr>a_id = 20, a_event_id = 7, a_user_id = 1, a_status = approved,
          a_hours_awarded = Some 3, a_verified_by = Some 2\<rparr>]\<rparr>"
  by code_simp

section \<open>Event management is the admin's\<close>





section \<open>Deleting an event\<close>

text \<open>
  Claim C10. Deleting an event never touches a profile: the table \<^verbatim>\<open>profiles\<close>, and with
  it every user's total-hours counter, is the same after the delete, whoever calls and
  whatever the status of the attendance rows that go. For an admin the event's row is
  removed and, the event existing, so are all attendance rows that refer to it; hours
  credited for them stay in the counters.
\<close>

theorem C10_event_delete_keeps_total_hours:
  "profiles (DELETE_events uid eid db) = profiles db
   \<and> total_hours_of (DELETE_events uid eid db) u = total_hours_of db u
   \<and> (has_role db uid [admin] \<longrightarrow>
        events (DELETE_events uid eid db) = filter (\<lambda>e. e_id e \<noteq> eid) (events db)
      \<and> (eid \<in> set (map e_id (events db)) \<longrightarrow>
           attendance (DELETE_events uid eid db) =
             filter (\<lambda>a. a_event_id a \<noteq> eid) (attendance db)))"
  by (auto simp: DELETE_events_def Admins_can_delete_events_def Let_def filter_empty_conv
        total_hours_of_def intro!: filter_cong)

text \<open>
  The admin deletes the beach cleanup after the member's three hours were credited: the
  approved record is gone, the three hours remain.
\<close>

theorem C10_witness:
  "has_role credited_store (Some 3) [admin]
   \<and> 7 \<in> set (map e_id (events credited_store))
   \<and> map a_status (attendance credited_store) = [approved]
   \<and> total_hours_of credited_store 1 = Some 3
   \<and> attendance (DELETE_events (Some 3) 7 credited_store) = []
   \<and> map e_id (events (DELETE_events (Some 3) 7 credited_store)) = [8]
   \<and> total_hours_of (DELETE_events (Some 3) 7 credited_store) 1 = Some 3"
proof -
  have a: "has_role credited_store (Some 3) [admin]"
    and e: "7 \<in> set (map e_id (events credited_store))"
    by (simp_all add: credited_store_eq example_store_def has_role_def)
  from a e C10_event_delete_keeps_total_hours [of "Some 3" 7 credited_store 1]
  show ?thesis
    by (simp add: credited_store_eq example_store_def total_hours_of_def)
qed

section \<open>The trigger against the specification's rule\<close>

text \<open>
  Where both the hours before and after the update are numbers, the trigger changes the
  counter of the record's user as the specification's rule says and leaves every other
  profile alone; and it raises nothing as long as the counter stays a 32-bit integer.
\<close>

lemma set_total_hours_map:
  assumes "profiles_set_total_hours f uid ps = Inr ps'"
    and "\<And>t v. f t = Inr (Some v) \<Longrightarrow> v = g t"
  shows "ps' = map (\<lambda>p. if p_user_id p = uid then p\<lparr>p_total_hours := g (p_total_hours p)\<rparr> else p) ps"
  using assms(1)
proof (induction ps arbitrary: ps')
  case Nil
  then show ?case by simp
next
  case (Cons p ps)
  then show ?case
    by (auto split: if_splits sum.splits option.splits dest: assms(2))
qed

lemma set_total_hours_total:
  assumes "\<forall>p \<in> set ps. p_user_id p = uid \<longrightarrow> f (p_total_hours p) = Inr (Some (g (p_total_hours p)))"
  shows "profiles_set_total_hours f uid ps =
         Inr (map (\<lambda>p. if p_user_id p = uid then p\<lparr>p_total_hours := g (p_total_hours p)\<rparr> else p) ps)"
  using assms by (induction ps) auto

lemma trigger_follows_rule:
  assumes "update_total_hours OLD NEW ps = Inr ps'"
    and "a_hours_awarded NEW = Some h_new" and "a_hours_awarded OLD = Some h_old"
  shows "ps' = map (\<lambda>p. if p_user_id p = a_user_id NEW
                        then p\<lparr>p_total_hours :=
                               spec_total_hours (a_status OLD) (a_status NEW) h_new h_old
                                 (p_total_hours p)\<rparr>
                        else p) ps"
proof -
  consider (add) "a_status NEW = approved" "a_status OLD \<noteq> approved"
    | (sub) "a_status OLD = approved" "a_status NEW \<noteq> approved"
    | (idle) "(a_status NEW = approved) = (a_status OLD = approved)"
    by auto
  then show ?thesis
  proof cases
    case add
    with assms have "profiles_set_total_hours (\<lambda>t. int4pl (Some t) (Some h_new)) (a_user_id NEW) ps
        = Inr ps'"
      by (simp add: update_total_hours_def split: sum.splits)
    then have "ps' = map (\<lambda>p. if p_user_id p = a_user_id NEW
                        then p\<lparr>p_total_hours := p_total_hours p + h_new\<rparr> else p) ps"
      by (rule set_total_hours_map) (simp add: int4pl_def split: if_splits)
    with add show ?thesis
      by (simp add: spec_total_hours_def)
  next
    case sub
    with assms have "profiles_set_total_hours
          (\<lambda>t. case int4mi (Some t) (Some h_old) of Inl e \<Rightarrow> Inl e
                | Inr d \<Rightarrow> Inr (sql_greatest (Some 0) d)) (a_user_id NEW) ps
        = Inr ps'"
      by (simp add: update_total_hours_def)
    then have "ps' = map (\<lambda>p. if p_user_id p = a_user_id NEW
                        then p\<lparr>p_total_hours := max 0 (p_total_hours p - h_old)\<rparr> else p) ps"
      by (rule set_total_hours_map)
         (auto simp: int4mi_def sql_greatest_def split: if_splits)
    with sub show ?thesis
      by (simp add: spec_total_hours_def)
  next
    case idle
    with assms(1) have "ps' = ps"
      by (simp add: update_total_hours_idle)
    moreover from idle have "\<And>t. spec_total_hours (a_status OLD) (a_status NEW) h_new h_old t = t"
      by (auto simp: spec_total_hours_def)
    ultimately show ?thesis
      by (simp add: map_idI)
  qed
qed

lemma trigger_raises_nothing:
  assumes "a_hours_awarded NEW = Some h_new" and "a_hours_awarded OLD = Some h_old"
    and "\<forall>p \<in> set ps. p_user_id p = a_user_id NEW \<longrightarrow>
           int4 (p_total_hours p + h_new) \<and> int4 (p_total_hours p - h_old)"
  shows "update_total_hours OLD NEW ps =
         Inr (map (\<lambda>p. if p_user_id p = a_user_id NEW
                        then p\<lparr>p_total_hours :=
                               spec_total_hours (a_status OLD) (a_status NEW) h_new h_old
                                 (p_total_hours p)\<rparr>
                        else p) ps)"
proof -
  have "\<exists>ps'. update_total_hours OLD NEW ps = Inr ps'"
  proof -
    consider (add) "a_status NEW = approved" "a_status OLD \<noteq> approved"
      | (sub) "a_status OLD = approved" "a_status NEW \<noteq> approved"
      | (idle) "(a_status NEW = approved) = (a_status OLD = approved)"
      by auto
    then show ?thesis
    proof cases
      case add
      from assms have "profiles_set_total_hours (\<lambda>t. int4pl (Some t) (Some h_new)) (a_user_id NEW) ps
          = Inr (map (\<lambda>p. if p_user_id p = a_user_id NEW
                        then p\<lparr>p_total_hours := p_total_hours p + h_new\<rparr> else p) ps)"
        by (intro set_total_hours_total) (simp add: int4pl_def)
      with add assms show ?thesis
        by (simp add: update_total_hours_def)
    next
      case sub
      from assms have "profiles_set_total_hours
          (\<lambda>t. case int4mi (Some t) (Some h_old) of Inl e \<Rightarrow> Inl e
                | Inr d \<Rightarrow> Inr (sql_greatest (Some 0) d)) (a_user_id NEW) ps
          = Inr (map (\<lambda>p. if p_user_id p = a_user_id NEW
                        then p\<lparr>p_total_hours := max 0 (p_total_hours p - h_old)\<rparr> else p) ps)"
        by (intro set_total_hours_total) (simp add: int4mi_def sql_greatest_def)
      with sub assms show ?thesis
        by (simp add: update_total_hours_def)
    next
      case idle
      then show ?thesis
        by (simp add: update_total_hours_idle)
    qed
  qed
  then obtain ps' where r: "update_total_hours OLD NEW ps = Inr ps'" ..
  from trigger_follows_rule [OF r assms(1,2)] r show ?thesis
    by simp
qed

text \<open>
  The floor of the subtract path keeps a counter non-negative whatever the hours; the add
  path keeps it so only when the hours it adds are not negative.
\<close>

lemma set_total_hours_sign:
  assumes "profiles_set_total_hours f uid qs = Inr qs'"
    and "\<forall>p \<in> set qs. 0 \<le> p_total_hours p"
    and "\<And>t v. f t = Inr (Some v) \<Longrightarrow> 0 \<le> t \<Longrightarrow> 0 \<le> v"
  shows "\<forall>p \<in> set qs'. 0 \<le> p_total_hours p"
  using assms(1,2)
proof (induction qs arbitrary: qs')
  case Nil
  then show ?case by simp
next
  case (Cons q qs)
  show ?case
  proof (cases "p_user_id q = uid")
    case True
    with Cons.prems obtain v rs where
      v: "f (p_total_hours q) = Inr (Some v)" and
      rs: "profiles_set_total_hours f uid qs = Inr rs" and
      qs': "qs' = q\<lparr>p_total_hours := v\<rparr> # rs"
      by (auto split: sum.splits option.splits)
    from Cons.prems have "0 \<le> p_total_hours q" by simp
    with v have "0 \<le> v" by (rule assms(3))
    moreover from Cons.IH [OF rs] Cons.prems have "\<forall>p \<in> set rs. 0 \<le> p_total_hours p" by simp
    ultimately show ?thesis using qs' by simp
  next
    case False
    with Cons.prems obtain rs where
      rs: "profiles_set_total_hours f uid qs = Inr rs" and qs': "qs' = q # rs"
      by (auto split: sum.splits)
    from Cons.IH [OF rs] Cons.prems qs' show ?thesis by simp
  qed
qed

lemma trigger_keeps_sign:
  assumes "update_total_hours OLD NEW ps = Inr ps'"
    and "\<forall>p \<in> set ps. 0 \<le> p_total_hours p"
    and "\<forall>h. a_hours_awarded NEW = Some h \<longrightarrow> 0 \<le> h"
  shows "\<forall>p \<in> set ps'. 0 \<le> p_total_hours p"
proof -
  consider (add) "a_status NEW = approved" "a_status OLD \<noteq> approved"
    | (sub) "a_status OLD = approved" "a_status NEW \<noteq> approved"
    | (idle) "(a_status NEW = approved) = (a_status OLD = approved)"
    by auto
  then show ?thesis
  proof cases
    case add
    with assms(1) have "profiles_set_total_hours
        (\<lambda>t. int4pl (Some t) (a_hours_awarded NEW)) (a_user_id NEW) ps = Inr ps'"
      by (simp add: update_total_hours_def split: sum.splits)
    then show ?thesis
      using assms(2)
    proof (rule set_total_hours_sign)
      fix t v
      assume "int4pl (Some t) (a_hours_awarded NEW) = Inr (Some v)" and "0 \<le> t"
      with assms(3) show "0 \<le> v"
        by (cases "a_hours_awarded NEW") (auto simp: int4pl_def split: if_splits)
    qed
  next
    case sub
    with assms(1) have "profiles_set_total_hours
          (\<lambda>t. case int4mi (Some t) (a_hours_awarded OLD) of Inl e \<Rightarrow> Inl e
                | Inr d \<Rightarrow> Inr (sql_greatest (Some 0) d)) (a_user_id NEW) ps = Inr ps'"
      by (simp add: update_total_hours_def)
    then show ?thesis
      using assms(2)
    proof (rule set_total_hours_sign)
      fix t v
      assume "(case int4mi (Some t) (a_hours_awarded OLD) of Inl e \<Rightarrow> Inl e
                | Inr d \<Rightarrow> Inr (sql_greatest (Some 0) d)) = Inr (Some v)"
      then show "0 \<le> v"
        by (cases "a_hours_awarded OLD")
           (auto simp: int4mi_def sql_greatest_def split: if_splits)
    qed
  next
    case idle
    with assms(1,2) show ?thesis
      by (simp add: update_total_hours_idle)
  qed
qed

lemma UPDATE_attendance_applied:
  assumes "distinct (map a_id (attendance db))" and "has_role db uid [admin, officer]"
    and "r \<in> set (attendance db)"
    and "references_user db (assign (au_verified_by v) None)"
    and "a_hours_awarded (attendance_set v r) = Some h_new" and "a_hours_awarded r = Some h_old"
    and "\<forall>p \<in> set (profiles db). p_user_id p = a_user_id r \<longrightarrow>
           int4 (p_total_hours p + h_new) \<and> int4 (p_total_hours p - h_old)"
    and "int4_or_null (assign (au_hours_awarded v) None)"
  shows "UPDATE_attendance uid (a_id r) v db =
         Inr (db\<lparr>attendance :=
                   map (\<lambda>a. if a_id a = a_id r then attendance_set v a else a) (attendance db),
                 profiles :=
                   map (\<lambda>p. if p_user_id p = a_user_id r
                            then p\<lparr>p_total_hours :=
                                   spec_total_hours (a_status r) (a_status (attendance_set v r))
                                     h_new h_old (p_total_hours p)\<rparr>
                            else p) (profiles db)\<rparr>)"
proof -
  from assms(5,6,7) have "update_total_hours r (attendance_set v r) (profiles db) =
         Inr (map (\<lambda>p. if p_user_id p = a_user_id (attendance_set v r)
                        then p\<lparr>p_total_hours :=
                               spec_total_hours (a_status r) (a_status (attendance_set v r))
                                 h_new h_old (p_total_hours p)\<rparr>
                        else p) (profiles db))"
    by (intro trigger_raises_nothing) simp_all
  with assms(1-4,8) show ?thesis
    by (simp add: UPDATE_attendance_admitted update_rows_one)
qed

text \<open>
  Along a history of status changes, as \<^verbatim>\<open>updateAttendanceStatus\<close> sends them, the
  counters stay non-negative provided they start so and no record carries negative hours.
\<close>

lemma update_rows_keep_sign:
  assumes "attendance_update_rows sel v as ps = Inr (as', ps')"
    and "\<forall>p \<in> set ps. 0 \<le> p_total_hours p"
    and "\<forall>a \<in> set as. \<forall>h. a_hours_awarded (attendance_set v a) = Some h \<longrightarrow> 0 \<le> h"
  shows "\<forall>p \<in> set ps'. 0 \<le> p_total_hours p"
  using assms
proof (induction as arbitrary: as' ps ps')
  case Nil
  then show ?case by simp
next
  case (Cons a as)
  show ?case
  proof (cases "sel a")
    case True
    with Cons.prems(1) obtain ps1 bs where
      t: "update_total_hours a (attendance_set v a) ps = Inr ps1" and
      rest: "attendance_update_rows sel v as ps1 = Inr (bs, ps')"
      by (auto split: sum.splits)
    from t Cons.prems(2,3) have "\<forall>p \<in> set ps1. 0 \<le> p_total_hours p"
      by (intro trigger_keeps_sign [OF t]) simp_all
    with rest Cons.prems(3) show ?thesis
      by (intro Cons.IH [OF rest]) simp_all
  next
    case False
    with Cons.prems(1) obtain bs where
      rest: "attendance_update_rows sel v as ps = Inr (bs, ps')"
      by (auto split: sum.splits)
    with Cons.prems(2,3) show ?thesis
      by (intro Cons.IH [OF rest]) simp_all
  qed
qed

lemma status_change_keeps_sign:
  assumes "\<forall>p \<in> set (profiles db). 0 \<le> p_total_hours p"
    and "\<forall>a \<in> set (attendance db). \<forall>h. a_hours_awarded a = Some h \<longrightarrow> 0 \<le> h"
  shows "\<forall>p \<in> set (profiles (perform (Update_attendance uid aid (status_change s w)) db)).
           0 \<le> p_total_hours p"
    and "\<forall>a \<in> set (attendance (perform (Update_attendance uid aid (status_change s w)) db)).
           \<forall>h. a_hours_awarded a = Some h \<longrightarrow> 0 \<le> h"
proof -
  let ?v = "status_change s w"
  have keep: "a_hours_awarded (attendance_set ?v a) = a_hours_awarded a" for a
    by (simp add: attendance_set_def status_change_def assign_def)
  show "\<forall>p \<in> set (profiles (perform (Update_attendance uid aid ?v) db)). 0 \<le> p_total_hours p"
  proof (cases "UPDATE_attendance uid aid ?v db")
    case (Inl e)
    with assms(1) show ?thesis by (simp add: or_unchanged_def)
  next
    case (Inr db')
    then obtain sel as ps where
      rows: "attendance_update_rows sel ?v (attendance db) (profiles db) = Inr (as, ps)"
      and db': "db' = db\<lparr>attendance := as, profiles := ps\<rparr>"
      by (auto simp: UPDATE_attendance_def Let_def split: if_splits sum.splits)
    from assms have "\<forall>p \<in> set ps. 0 \<le> p_total_hours p"
      by (intro update_rows_keep_sign [OF rows]) (simp_all add: keep)
    with Inr db' show ?thesis by (simp add: or_unchanged_def)
  qed
  show "\<forall>a \<in> set (attendance (perform (Update_attendance uid aid ?v) db)).
           \<forall>h. a_hours_awarded a = Some h \<longrightarrow> 0 \<le> h"
  proof (cases "UPDATE_attendance uid aid ?v db")
    case (Inl e)
    with assms(2) show ?thesis by (simp add: or_unchanged_def)
  next
    case (Inr db')
    then obtain sel as ps where
      rows: "attendance_update_rows sel ?v (attendance db) (profiles db) = Inr (as, ps)"
      and db': "db' = db\<lparr>attendance := as, profiles := ps\<rparr>"
      by (auto simp: UPDATE_attendance_def Let_def split: if_splits sum.splits)
    from update_rows_keys(1) [OF rows] assms(2)
    have "\<forall>a \<in> set as. \<forall>h. a_hours_awarded a = Some h \<longrightarrow> 0 \<le> h"
      by (auto simp: keep)
    with Inr db' show ?thesis by (simp add: or_unchanged_def)
  qed
qed

lemma status_changes_keep_sign:
  assumes "\<forall>p \<in> set (profiles db). 0 \<le> p_total_hours p"
    and "\<forall>a \<in> set (attendance db). \<forall>h. a_hours_awarded a = Some h \<longrightarrow> 0 \<le> h"
    and "\<forall>r \<in> set rs. \<exists>uid aid s w. r = Update_attendance uid aid (status_change s w)"
  shows "\<forall>p \<in> set (profiles (run rs db)). 0 \<le> p_total_hours p"
  using assms
proof (induction rs arbitrary: db)
  case Nil
  then show ?case by simp
next
  case (Cons r rs)
  from Cons.prems(3) obtain uid aid s w where
    r: "r = Update_attendance uid aid (status_change s w)"
    by auto
  from Cons.prems(3) have rest:
    "\<forall>r \<in> set rs. \<exists>uid aid s w. r = Update_attendance uid aid (status_change s w)"
    by simp
  from status_change_keeps_sign [OF Cons.prems(1,2), of uid aid s w] r rest
  show ?case
    by (simp only: run.simps) (intro Cons.IH, simp_all)
qed

text \<open>
  Claim C1. On every update of a record's status the counter of the owning profile
  follows the rule: plus the hours on a change into approved, minus the pre-update hours,
  floored at zero, on a change out of approved, untouched otherwise. Lemma
  \<open>UPDATE_attendance_applied\<close> is this rule for records whose hours are numbers. The
  column \<^verbatim>\<open>hours_awarded\<close> admits \<^verbatim>\<open>NULL\<close>, though, and there the subtract path
  computes \<^verbatim>\<open>GREATEST(0, total_hours - NULL)\<close>, which PostgreSQL evaluates to \<^verbatim>\<open>0\<close>:
  the member below holds three credited hours and inserts a second record, approved and
  without hours (the insert policy looks at the user only); the officer sets that record to
  denied, and the member's counter drops from three to zero although the revoked record
  had credited nothing.
\<close>

theorem C1_null_hours_revocation_zeroes_counter:
  "INSERT_attendance (Some 1)
      \<lparr>ai_id = 21, ai_event_id = 8, ai_user_id = 1, ai_status = given approved,
       ai_hours_awarded = given None, ai_verified_by = omitted\<rparr> credited_store
    = Inr (credited_store
         \<lparr>attendance :=
            [\<lparr>a_id = 20, a_event_id = 7, a_user_id = 1, a_status = approved,
              a_hours_awarded = Some 3, a_verified_by = Some 2\<rparr>,
             \<lparr>a_id = 21, a_event_id = 8, a_user_id = 1, a_status = approved,
              a_hours_awarded = None, a_verified_by = None\<rparr>]\<rparr>)
   \<and> total_hours_of credited_store 1 = Some 3
   \<and> total_hours_of
        (run [Insert_attendance (Some 1)
                \<lparr>ai_id = 21, ai_event_id = 8, ai_user_id = 1, ai_status = given approved,
                 ai_hours_awarded = given None, ai_verified_by = omitted\<rparr>,
              Update_attendance (Some 2) 21 (status_change denied 2)]
           credited_store) 1
      = Some 0"
  by code_simp

text \<open>
  Claim C2. The total-hours counter is never negative, for any sequence of status changes
  from a counter of zero. This holds where no record carries negative hours
  (\<open>status_changes_keep_sign\<close>). But only the subtract path floors the counter, the add
  path does not, and no constraint keeps \<^verbatim>\<open>hours_value\<close> or \<^verbatim>\<open>hours_awarded\<close> from
  being negative: the admin creates an event worth minus five hours, the member signs up
  for it, the officer approves, and the member's counter goes from zero to minus five.
\<close>

theorem C2_negative_hours_make_counter_negative:
  "total_hours_of example_store 1 = Some 0
   \<and> total_hours_of
        (run [Insert_events (Some 3)
                \<lparr>e_id = 9, e_title = ''Car wash'', e_date_time = 300, e_location = ''Lot'',
                 e_description = None, e_hours_value = - 5, e_created_by = 3\<rparr>,
              Insert_attendance (Some 1)
                \<lparr>ai_id = 22, ai_event_id = 9, ai_user_id = 1, ai_status = omitted,
                 ai_hours_awarded = given (Some (- 5)), ai_verified_by = omitted\<rparr>,
              Update_attendance (Some 2) 22 (status_change approved 2)]
           example_store) 1
      = Some (- 5)"
  by code_simp

section \<open>Editing the hours of an approved record\<close>

text \<open>
  Claim C9. An update of an approved record that leaves the status approved (it names no
  status, or names approved again) changes no profile, whatever it does to the hours: the
  statement either fails, on hours that are no 32-bit integer or on the verifier's foreign
  key, or replaces the addressed row, for an officer or admin, and the table
  \<^verbatim>\<open>profiles\<close> is the same afterwards.
\<close>

theorem C9_hours_edit_leaves_counter:
  assumes "\<forall>a \<in> set (attendance db). a_id a = aid \<longrightarrow> a_status a = approved"
    and "au_status v = omitted \<or> au_status v = given approved"
  shows "UPDATE_attendance uid aid v db =
           (if \<not> int4_or_null (assign (au_hours_awarded v) None)
            then Inl numeric_value_out_of_range
            else if has_role db uid [admin, officer]
               \<and> list_ex (\<lambda>a. a_id a = aid) (attendance db)
               \<and> \<not> references_user db (assign (au_verified_by v) None)
            then Inl foreign_key_violation
            else Inr (db\<lparr>attendance :=
                          map (\<lambda>a. if a_id a = aid \<and> has_role db uid [admin, officer]
                                   then attendance_set v a else a) (attendance db)\<rparr>))
         \<and> profiles (or_unchanged db (UPDATE_attendance uid aid v db)) = profiles db"
proof (cases "has_role db uid [admin, officer]")
  case False
  then show ?thesis
    by (simp add: UPDATE_attendance_turned_away or_unchanged_def)
next
  case True
  from assms have "\<forall>a \<in> set (attendance db). a_id a = aid \<longrightarrow>
      (a_status (attendance_set v a) = approved) = (a_status a = approved)"
    by (auto simp: attendance_set_def assign_def)
  then have "attendance_update_rows (\<lambda>a. a_id a = aid) v (attendance db) (profiles db) =
      Inr (map (\<lambda>a. if a_id a = aid then attendance_set v a else a) (attendance db), profiles db)"
    by (rule update_rows_idle)
  with True show ?thesis
    by (simp add: UPDATE_attendance_admitted or_unchanged_def)
qed

text \<open>
  The officer rewrites the hours of the approved and credited record from three to five:
  the record says five, the member's counter still three.
\<close>

theorem C9_witness:
  "map a_status (attendance credited_store) = [approved]
   \<and> total_hours_of credited_store 1 = Some 3
   \<and> UPDATE_attendance (Some 2) 20
        \<lparr>au_status = omitted, au_hours_awarded = given (Some 5), au_verified_by = omitted\<rparr>
        credited_store
      = Inr (credited_store
           \<lparr>attendance :=
              [\<lparr>a_id = 20, a_event_id = 7, a_user_id = 1, a_status = approved,
                a_hours_awarded = Some 5, a_verified_by = Some 2\<rparr>]\<rparr>)"
proof -
  let ?v = "\<lparr>au_status = omitted, au_hours_awarded = given (Some 5), au_verified_by = omitted\<rparr>"
  have a: "\<forall>a \<in> set (attendance credited_store). a_id a = 20 \<longrightarrow> a_status a = approved"
    by (simp add: credited_store_eq)
  have s: "au_status ?v = omitted \<or> au_status ?v = given approved"
    by simp
  from C9_hours_edit_leaves_counter [OF a s, of "Some 2"] show ?thesis
    by (simp add: credited_store_eq example_store_def has_role_def references_user_def
        assign_def attendance_set_def total_hours_of_def int4_or_null_def int4_def)
qed

section \<open>One record per event and user\<close>

text \<open>
  Claim C7. In every store that a history of statements builds from the empty one, no two
  attendance rows share event and user. Where a row for the pair exists, a further insert
  for it fails and the store stays as it was: with \<open>unique_violation\<close> for the caller the
  insert policy admits, the record's user, and with \<open>insufficient_privilege\<close> for anyone
  else (hours that are no 32-bit integer are refused before either);
  \<^verbatim>\<open>signUpForEvent\<close> shows the violation as its error toast.
\<close>

theorem C7_one_record_per_event_and_user:
  "distinct (map event_user (attendance (run rs empty_database)))
   \<and> (list_ex (\<lambda>a. a_event_id a = ai_event_id v \<and> a_user_id a = ai_user_id v) (attendance db)
        \<longrightarrow> INSERT_attendance uid v db =
              (if \<not> int4_or_null (assign (ai_hours_awarded v) (Some 0))
               then Inl numeric_value_out_of_range
               else if uid = Some (ai_user_id v) then Inl unique_violation
               else Inl insufficient_privilege)
          \<and> perform (Insert_attendance uid v) db = db)
   \<and> (list_ex (\<lambda>a. a_event_id a = eventId \<and> a_user_id a = u) (attendance db)
        \<longrightarrow> signUpForEvent (Some u) new_id eventId hoursValue db =
              (Some (toast_destructive
                       (if int4 hoursValue then unique_violation
                        else numeric_value_out_of_range)), db))"
proof -
  have "keys_unique (run rs empty_database)"
    by (simp add: keys_unique_run keys_unique_empty)
  then have 1: "distinct (map event_user (attendance (run rs empty_database)))"
    by (simp add: keys_unique_def)
  have 2: "INSERT_attendance uid v db =
              (if \<not> int4_or_null (assign (ai_hours_awarded v) (Some 0))
               then Inl numeric_value_out_of_range
               else if uid = Some (ai_user_id v) then Inl unique_violation
               else Inl insufficient_privilege)"
    if "list_ex (\<lambda>a. a_event_id a = ai_event_id v \<and> a_user_id a = ai_user_id v) (attendance db)"
    for uid v
  proof -
    from that have "event_user (attendance_new_row v) \<in> set (map event_user (attendance db))"
      by (force simp: list_ex_iff event_user_def attendance_new_row_def image_iff)
    then show ?thesis
      by (auto simp: INSERT_attendance_def Let_def Users_can_sign_up_for_events_def
          attendance_new_row_def)
  qed
  have 3: "signUpForEvent (Some u) new_id eventId hoursValue db =
              (Some (toast_destructive
                       (if int4 hoursValue then unique_violation
                        else numeric_value_out_of_range)), db)"
    if "list_ex (\<lambda>a. a_event_id a = eventId \<and> a_user_id a = u) (attendance db)"
    using 2 [of "\<lparr>ai_id = new_id, ai_event_id = eventId, ai_user_id = u,
                   ai_status = omitted, ai_hours_awarded = given (Some hoursValue),
                   ai_verified_by = omitted\<rparr>" "Some u"] that
    by (simp add: signUpForEvent_def assign_def int4_or_null_def)
  from 1 2 [of v uid] 3 show ?thesis
    by (auto simp: or_unchanged_def)
qed

text \<open>The member signs up for the beach cleanup a second time.\<close>

theorem C7_witness:
  "list_ex (\<lambda>a. a_event_id a = 7 \<and> a_user_id a = 1) (attendance signed_up_store)
   \<and> signUpForEvent (Some 1) 21 7 3 signed_up_store
      = (Some (toast_destructive unique_violation), signed_up_store)
   \<and> INSERT_attendance (Some 2)
        \<lparr>ai_id = 21, ai_event_id = 7, ai_user_id = 1, ai_status = omitted,
         ai_hours_awarded = omitted, ai_verified_by = omitted\<rparr> signed_up_store
      = Inl insufficient_privilege"
proof -
  let ?v = "\<lparr>ai_id = 21, ai_event_id = 7, ai_user_id = 1, ai_status = omitted,
         ai_hours_awarded = omitted, ai_verified_by = omitted\<rparr>"
  have h: "list_ex (\<lambda>a. a_event_id a = 7 \<and> a_user_id a = 1) (attendance signed_up_store)"
    by (simp add: signed_up_store_eq)
  from h C7_one_record_per_event_and_user [of "[]" ?v signed_up_store "Some 2" 7 1 21 3]
  show ?thesis
    by (simp add: assign_def int4_or_null_def int4_def)
qed

section \<open>Who may change a status\<close>

text \<open>
  Claim C5, as stated: a status update succeeds if and only if the caller's role is
  officer or admin, and a member's status update is rejected. The member of the example
  store sends the approval of the member's own pending record: nothing is rejected, the
  statement raises no error and \<^verbatim>\<open>updateAttendanceStatus\<close> shows its success toast, the
  record being as pending as before.
\<close>

theorem C5_counterexample:
  "get_current_user_role signed_up_store (Some 1) = Some member
   \<and> UPDATE_attendance (Some 1) 20 (status_change approved 1) signed_up_store
      = Inr signed_up_store
   \<and> updateAttendanceStatus (Some 1) 20 approved signed_up_store
      = (Some toast_success, signed_up_store)"
  by code_simp

text \<open>
  Claim C5, amended. An attendance status update takes effect only for a caller whose
  role, read from the caller's own profile, is officer or admin. A caller of any other
  role is not rejected: the update matches no row, leaves the store as it was and raises
  no error, and \<^verbatim>\<open>updateAttendanceStatus\<close> shows its success toast. For an officer or
  admin the update reaches any attendance record: it replaces the record's row and runs
  the hour-accounting trigger on it, and is applied unless the statement raises, which it
  does on hours that are no 32-bit integer (for any caller), on a verifier that is no user,
  and where the trigger raises. The store is one whose profiles and attendance rows carry
  the unique keys the schema declares.
\<close>

theorem C5_status_update_gate:
  assumes "distinct (map p_user_id (profiles db))" and "distinct (map a_id (attendance db))"
  shows "(get_current_user_role db uid \<notin> {Some officer, Some admin} \<longrightarrow>
            UPDATE_attendance uid aid v db =
              (if int4_or_null (assign (au_hours_awarded v) None) then Inr db
               else Inl numeric_value_out_of_range)
          \<and> updateAttendanceStatus uid aid status db =
              (case uid of None \<Rightarrow> (None, db) | Some u \<Rightarrow> (Some toast_success, db)))
       \<and> (UPDATE_attendance uid aid v db = Inr db' \<longrightarrow> db' \<noteq> db \<longrightarrow>
            get_current_user_role db uid \<in> {Some officer, Some admin})
       \<and> (get_current_user_role db uid \<in> {Some officer, Some admin} \<longrightarrow>
            r \<in> set (attendance db) \<longrightarrow>
            UPDATE_attendance uid (a_id r) v db =
              (if \<not> int4_or_null (assign (au_hours_awarded v) None)
               then Inl numeric_value_out_of_range
               else if \<not> references_user db (assign (au_verified_by v) None)
               then Inl foreign_key_violation
               else
                 (case update_total_hours r (attendance_set v r) (profiles db) of
                    Inl e \<Rightarrow> Inl e
                  | Inr ps \<Rightarrow>
                      Inr (db\<lparr>attendance :=
                                map (\<lambda>a. if a_id a = a_id r then attendance_set v a else a)
                                  (attendance db),
                              profiles := ps\<rparr>))))"
proof -
  have away: "UPDATE_attendance uid aid v db =
              (if int4_or_null (assign (au_hours_awarded v) None) then Inr db
               else Inl numeric_value_out_of_range)"
    if "get_current_user_role db uid \<notin> {Some officer, Some admin}" for v
  proof -
    from assms(1) that have "\<not> has_role db uid [admin, officer]"
      by (auto simp: has_role_iff)
    then show ?thesis
      by (rule UPDATE_attendance_turned_away)
  qed
  have toast: "updateAttendanceStatus uid aid status db =
              (case uid of None \<Rightarrow> (None, db) | Some u \<Rightarrow> (Some toast_success, db))"
    if "get_current_user_role db uid \<notin> {Some officer, Some admin}"
  proof (cases uid)
    case None
    then show ?thesis by (simp add: updateAttendanceStatus_def)
  next
    case (Some u)
    with away [OF that, of "\<lparr>au_status = given status, au_hours_awarded = omitted,
                   au_verified_by = given (Some u)\<rparr>"]
    show ?thesis
      by (simp add: updateAttendanceStatus_def assign_def int4_or_null_def)
  qed
  have only: "get_current_user_role db uid \<in> {Some officer, Some admin}"
    if "UPDATE_attendance uid aid v db = Inr db'" "db' \<noteq> db"
  proof (rule ccontr)
    assume "get_current_user_role db uid \<notin> {Some officer, Some admin}"
    from away [OF this, of v] that show False
      by (simp split: if_splits)
  qed
  have reach: "UPDATE_attendance uid (a_id r) v db =
              (if \<not> int4_or_null (assign (au_hours_awarded v) None)
               then Inl numeric_value_out_of_range
               else if \<not> references_user db (assign (au_verified_by v) None)
               then Inl foreign_key_violation
               else
                 (case update_total_hours r (attendance_set v r) (profiles db) of
                    Inl e \<Rightarrow> Inl e
                  | Inr ps \<Rightarrow>
                      Inr (db\<lparr>attendance :=
                                map (\<lambda>a. if a_id a = a_id r then attendance_set v a else a)
                                  (attendance db),
                              profiles := ps\<rparr>)))"
    if "get_current_user_role db uid \<in> {Some officer, Some admin}" "r \<in> set (attendance db)"
  proof -
    from assms(1) that(1) have gate: "has_role db uid [admin, officer]"
      by (auto simp: has_role_iff)
    from that(2) have ex: "list_ex (\<lambda>a. a_id a = a_id r) (attendance db)"
      by (auto simp: list_ex_iff)
    from gate ex show ?thesis
      by (simp add: UPDATE_attendance_admitted update_rows_one [OF assms(2) that(2)]
          split: sum.splits)
  qed
  from away toast only reach show ?thesis
    by blast
qed

text \<open>
  The member's attempt to approve the member's own pending record changes nothing and
  shows the success toast; the officer denies the record.
\<close>

theorem C5_witness:
  "distinct (map p_user_id (profiles signed_up_store))
   \<and> distinct (map a_id (attendance signed_up_store))
   \<and> get_current_user_role signed_up_store (Some 1) = Some member
   \<and> UPDATE_attendance (Some 1) 20 (status_change approved 1) signed_up_store
       = Inr signed_up_store
   \<and> updateAttendanceStatus (Some 1) 20 approved signed_up_store
       = (Some toast_success, signed_up_store)
   \<and> get_current_user_role signed_up_store (Some 2) = Some officer
   \<and> UPDATE_attendance (Some 2) 20 (status_change denied 2) signed_up_store
       = Inr (signed_up_store
            \<lparr>attendance :=
               [\<lparr>a_id = 20, a_event_id = 7, a_user_id = 1, a_status = denied,
                 a_hours_awarded = Some 3, a_verified_by = Some 2\<rparr>]\<rparr>)"
proof -
  let ?r = "\<lparr>a_id = 20, a_event_id = 7, a_user_id = 1, a_status = pending,
          a_hours_awarded = Some 3, a_verified_by = None\<rparr>"
  let ?denied = "signed_up_store
            \<lparr>attendance :=
               [\<lparr>a_id = 20, a_event_id = 7, a_user_id = 1, a_status = denied,
                 a_hours_awarded = Some 3, a_verified_by = Some 2\<rparr>]\<rparr>"
  have d: "distinct (map p_user_id (profiles signed_up_store))"
    and d': "distinct (map a_id (attendance signed_up_store))"
    by (simp_all add: signed_up_store_eq example_store_def)
  have m: "get_current_user_role signed_up_store (Some 1) = Some member"
    and o: "get_current_user_role signed_up_store (Some 2) = Some officer"
    by (simp_all add: signed_up_store_eq example_store_def get_current_user_role_def)
  from m have m': "get_current_user_role signed_up_store (Some 1) \<notin> {Some officer, Some admin}"
    by simp
  from o have o': "get_current_user_role signed_up_store (Some 2) \<in> {Some officer, Some admin}"
    by simp
  have r: "?r \<in> set (attendance signed_up_store)"
    by (simp add: signed_up_store_eq)
  have u: "UPDATE_attendance (Some 2) 20 (status_change denied 2) signed_up_store = Inr ?denied"
    by code_simp
  have ne: "?denied \<noteq> signed_up_store"
  proof
    assume "?denied = signed_up_store"
    then have "map a_status (attendance ?denied) = map a_status (attendance signed_up_store)"
      by simp
    then show False
      by (simp add: signed_up_store_eq)
  qed
  note member = C5_status_update_gate [OF d d', of "Some 1" 20 "status_change approved 1"
      approved, THEN conjunct1, rule_format, OF m']
  note only = C5_status_update_gate [OF d d', of "Some 2" 20 "status_change denied 2"
      approved ?denied, THEN conjunct2, THEN conjunct1, rule_format, OF u ne]
  note officer = C5_status_update_gate [OF d d', of "Some 2" 20 "status_change denied 2"
      approved ?denied ?r, THEN conjunct2, THEN conjunct2, rule_format, OF o' r]
  from member only officer d d' m o u show ?thesis
    by (simp add: status_change_def assign_def int4_or_null_def)
qed

section \<open>Direct writes to a profile\<close>

text \<open>
  A direct write to a profile is gated by ownership, whatever the caller's role, and the
  policy names no column.
\<close>

lemma UPDATE_profiles_gate:
  "UPDATE_profiles uid target v db =
     (if \<not> int4 (assign (pu_total_hours v) 0) then Inl numeric_value_out_of_range
      else Inr (db\<lparr>profiles :=
                  map (\<lambda>p. if p_user_id p = target \<and> uid = Some target
                           then profile_set v p else p) (profiles db)\<rparr>))"
proof -
  have "(\<lambda>p. if p_user_id p = target
                  \<and> (Users_can_view_their_own_profile uid p
                     \<or> Officers_and_admins_can_view_all_profiles db uid)
                  \<and> Users_can_update_their_own_profile uid p
               then profile_set v p else p)
      = (\<lambda>p. if p_user_id p = target \<and> uid = Some target then profile_set v p else p)"
    by (auto simp: Users_can_update_their_own_profile_def Users_can_view_their_own_profile_def)
  then show ?thesis
    by (simp add: UPDATE_profiles_def)
qed

text \<open>
  Claim C3. Only an admin can change a profile's role, no direct client write changes
  total-hours, and a non-admin's attempt at either is rejected at the store. The admin
  panel is written to that end: \<^verbatim>\<open>updateUserRole\<close> sends an admin's change of another
  user's role. But the only \<^verbatim>\<open>UPDATE\<close> policy of \<^verbatim>\<open>profiles\<close> admits the profile's own
  user and nobody else, for every column. The member of the example store becomes admin
  and gets a counter of 500 by one update of the member's own profile; and the admin's
  \<^verbatim>\<open>updateUserRole\<close> on the member's profile shows the success toast and changes
  nothing.
\<close>

theorem C3_member_promotes_self_admin_cannot:
  "get_current_user_role example_store (Some 1) = Some member
   \<and> UPDATE_profiles (Some 1) 1
        \<lparr>pu_name = omitted, pu_email = omitted, pu_role = given admin,
         pu_total_hours = given 500\<rparr> example_store
      = Inr (example_store
          \<lparr>profiles :=
             [\<lparr>p_id = 11, p_user_id = 1, p_name = ''Mia'', p_email = ''mia@ices'',
               p_role = admin, p_total_hours = 500\<rparr>,
              \<lparr>p_id = 12, p_user_id = 2, p_name = ''Omar'', p_email = ''omar@ices'',
               p_role = officer, p_total_hours = 0\<rparr>,
              \<lparr>p_id = 13, p_user_id = 3, p_name = ''Ada'', p_email = ''ada@ices'',
               p_role = admin, p_total_hours = 0\<rparr>]\<rparr>)
   \<and> get_current_user_role example_store (Some 3) = Some admin
   \<and> updateUserRole (Some 3) 1 officer example_store = (Some toast_success, example_store)"
  by code_simp

section \<open>The status of a new record\<close>




section \<open>The hours of a new record\<close>

lemma find_by_key:
  "distinct (map f xs) \<Longrightarrow> x \<in> set xs \<Longrightarrow> find (\<lambda>y. f y = f x) xs = Some x"
  by (induction xs) (auto simp: image_iff)

lemma fetched_events_stored:
  "e \<in> set (md_events (fetchData (Some u) now db st)) \<Longrightarrow> e \<in> set (events db)"
  by (simp add: fetchData_def)

text \<open>
  Claim C8, as stated: the hours of a new record default to the hour value of its event at
  sign-up time. Two creations where they do not. An insert that names no hours takes the
  column default \<^verbatim>\<open>0\<close>, the beach cleanup being worth three hours. And the member's
  dashboard was fetched while the beach cleanup stood at three hours; the admin has since
  raised it to five; the member's click on Sign Up creates a record of three hours.
\<close>

theorem C8_counterexample:
  "hours_value_of example_store 7 = Some 3
   \<and> INSERT_attendance (Some 1)
        \<lparr>ai_id = 20, ai_event_id = 7, ai_user_id = 1, ai_status = omitted,
         ai_hours_awarded = omitted, ai_verified_by = omitted\<rparr> example_store
      = Inr (example_store
           \<lparr>attendance :=
              [\<lparr>a_id = 20, a_event_id = 7, a_user_id = 1, a_status = pending,
                a_hours_awarded = Some 0, a_verified_by = None\<rparr>]\<rparr>)
   \<and> map e_id (md_events member_dashboard) = [7, 8]
   \<and> e_hours_value (hd (md_events member_dashboard)) = 3
   \<and> hours_value_of revalued_store 7 = Some 5
   \<and> Sign_Up_onClick member_dashboard (Some 1) 20 (hd (md_events member_dashboard))
        revalued_store
      = (Some toast_success,
         revalued_store
           \<lparr>attendance :=
              [\<lparr>a_id = 20, a_event_id = 7, a_user_id = 1, a_status = pending,
                a_hours_awarded = Some 3, a_verified_by = None\<rparr>]\<rparr>)"
  by code_simp

text \<open>
  Claim C8, amended. The hours of a new record are the hours its insert names, and the
  column default \<^verbatim>\<open>0\<close> when it names none. A sign-up through the Sign Up button of an
  event card names the hour value of the event as the member's dashboard last fetched it:
  the value the store held for the event at that fetch, and so the event's value at
  sign-up time whenever the events have not changed since.
\<close>

theorem C8_hours_of_new_record:
  "(INSERT_attendance uid v db = Inr db' \<longrightarrow>
      (\<exists>r. attendance db' = attendance db @ [r]
           \<and> a_hours_awarded r = (case ai_hours_awarded v of omitted \<Rightarrow> Some 0 | given h \<Rightarrow> h)))
   \<and> (event \<in> set (md_events (fetchData (Some u) now db0 st0)) \<longrightarrow>
        distinct (map e_id (events db0)) \<longrightarrow>
        Sign_Up_onClick (fetchData (Some u) now db0 st0) (Some u) new_id event db
          = (Some toast_success, db'') \<longrightarrow>
        (\<exists>r. attendance db'' = attendance db @ [r]
             \<and> a_event_id r = e_id event \<and> a_user_id r = u
             \<and> a_hours_awarded r = Some (e_hours_value event)
             \<and> a_hours_awarded r = hours_value_of db0 (a_event_id r)
             \<and> (events db = events db0 \<longrightarrow>
                  a_hours_awarded r = hours_value_of db'' (a_event_id r))))"
proof (intro conjI impI)
  assume "INSERT_attendance uid v db = Inr db'"
  then show "\<exists>r. attendance db' = attendance db @ [r]
           \<and> a_hours_awarded r = (case ai_hours_awarded v of omitted \<Rightarrow> Some 0 | given h \<Rightarrow> h)"
    by (auto simp: INSERT_attendance_def Let_def attendance_new_row_def assign_def
        split: if_splits)
next
  assume fetched: "event \<in> set (md_events (fetchData (Some u) now db0 st0))"
    and keys: "distinct (map e_id (events db0))"
    and click: "Sign_Up_onClick (fetchData (Some u) now db0 st0) (Some u) new_id event db
          = (Some toast_success, db'')"
  from fetched have "event \<in> set (events db0)"
    by (rule fetched_events_stored)
  with keys have stored: "hours_value_of db0 (e_id event) = Some (e_hours_value event)"
    by (simp add: hours_value_of_def find_by_key)
  from click have ins: "INSERT_attendance (Some u)
        \<lparr>ai_id = new_id, ai_event_id = e_id event, ai_user_id = u, ai_status = omitted,
         ai_hours_awarded = given (Some (e_hours_value event)), ai_verified_by = omitted\<rparr> db
      = Inr db''"
    by (auto simp: Sign_Up_onClick_def signUpForEvent_def split: if_splits sum.splits)
  then have "attendance db'' = attendance db @
        [\<lparr>a_id = new_id, a_event_id = e_id event, a_user_id = u, a_status = pending,
          a_hours_awarded = Some (e_hours_value event), a_verified_by = None\<rparr>]"
    and "events db'' = events db"
    by (auto simp: INSERT_attendance_def Let_def attendance_new_row_def assign_def
        split: if_splits)
  with stored show "\<exists>r. attendance db'' = attendance db @ [r]
             \<and> a_event_id r = e_id event \<and> a_user_id r = u
             \<and> a_hours_awarded r = Some (e_hours_value event)
             \<and> a_hours_awarded r = hours_value_of db0 (a_event_id r)
             \<and> (events db = events db0 \<longrightarrow>
                  a_hours_awarded r = hours_value_of db'' (a_event_id r))"
    by (auto simp: hours_value_of_def)
qed

text \<open>The member signs up from a dashboard that is up to date.\<close>

theorem C8_witness:
  "INSERT_attendance (Some 1)
        \<lparr>ai_id = 20, ai_event_id = 7, ai_user_id = 1, ai_status = omitted,
         ai_hours_awarded = given (Some 3), ai_verified_by = omitted\<rparr> example_store
      = Inr signed_up_store
   \<and> hd (md_events member_dashboard) \<in> set (md_events member_dashboard)
   \<and> distinct (map e_id (events example_store))
   \<and> Sign_Up_onClick member_dashboard (Some 1) 20 (hd (md_events member_dashboard))
        example_store = (Some toast_success, signed_up_store)
   \<and> map a_hours_awarded (attendance signed_up_store) = [hours_value_of signed_up_store 7]
   \<and> hours_value_of signed_up_store 7 = Some 3"
proof -
  let ?e = "hd (md_events member_dashboard)"
  let ?v = "\<lparr>ai_id = 20, ai_event_id = 7, ai_user_id = 1, ai_status = omitted,
         ai_hours_awarded = given (Some 3), ai_verified_by = omitted\<rparr>"
  have i: "INSERT_attendance (Some 1) ?v example_store = Inr signed_up_store"
    by code_simp
  have m: "?e \<in> set (md_events (fetchData (Some 1) 50 example_store
                \<lparr>md_events = [], md_myAttendance = []\<rparr>))"
    unfolding member_dashboard_def [symmetric] by code_simp
  have d: "distinct (map e_id (events example_store))"
    by (simp add: example_store_def)
  have c: "Sign_Up_onClick (fetchData (Some 1) 50 example_store
                \<lparr>md_events = [], md_myAttendance = []\<rparr>) (Some 1) 20 ?e example_store
           = (Some toast_success, signed_up_store)"
    unfolding member_dashboard_def [symmetric] by code_simp
  have e: "e_id ?e = 7"
    by code_simp
  note c8 = C8_hours_of_new_record [of "Some 1" ?v example_store signed_up_store ?e 1 50
      example_store "\<lparr>md_events = [], md_myAttendance = []\<rparr>" 20 signed_up_store]
  from c8 [THEN conjunct1, rule_format, OF i] c8 [THEN conjunct2, rule_format, OF m d c]
    e i m d c
  show ?thesis
    by (auto simp: member_dashboard_def signed_up_store_eq example_store_def hours_value_of_def)
qed

end
